theory Spec2Isabelle
  imports Main
begin

section \<open>The search bar of react-site-search-starter\<close>

text \<open>
  A shallow embedding of \<^verbatim>\<open>src/components/SearchBar.tsx\<close> (the version with recent
  searches, vertical links and entity previews). The component is a function of its
  props and of the values its hooks return; what it renders is modelled as the list of
  children of the dropdown menu, and what its handlers do as the sequence of calls they
  make on the collaborators (the search-state client, the hooks, the browser history).
\<close>

subsection \<open>Data\<close>

text \<open>An autocomplete result: its \<^verbatim>\<open>value\<close> and its optional \<^verbatim>\<open>verticalKeys\<close>.\<close>

record autocomplete_result =
  result_value :: string
  verticalKeys :: "string list option"

record autocomplete_response =
  results :: "autocomplete_result list"

record recent_search =
  query :: string

text \<open>
  The props the modelled functions read. An optional boolean is \<open>bool option\<close>
  (\<open>None\<close> is \<^verbatim>\<open>undefined\<close>); \<^verbatim>\<open>renderEntityPreviews\<close> maps the loading flag and the
  vertical results to an element. The other props of the interface (placeholder, CSS classes,
  geolocation options, debouncing time, recent-searches limit) are handed to hooks and
  child components unchanged.
\<close>

record ('v, 'e) props =
  hideRecentSearches :: "bool option"
  hideVerticalLinks :: "bool option"
  verticalKeyToLabel :: "(string \<Rightarrow> string) option"
  renderEntityPreviews :: "(bool \<Rightarrow> 'v \<Rightarrow> 'e) option"

text \<open>JavaScript truthiness of an optional boolean and of an optional string.\<close>

definition truthy :: "bool option \<Rightarrow> bool" where
  "truthy b = (b = Some True)"

definition truthy_string :: "string option \<Rightarrow> bool" where
  "truthy_string s = (case s of None \<Rightarrow> False | Some t \<Rightarrow> t \<noteq> [])"

text \<open>\<^verbatim>\<open>n || 0\<close> style truthiness of an optional length.\<close>

definition truthy_number :: "nat option \<Rightarrow> bool" where
  "truthy_number n = (case n of None \<Rightarrow> False | Some k \<Rightarrow> k \<noteq> 0)"

subsection \<open>Dropdown items\<close>

datatype icon = RecentSearchIcon | MagnifyingGlassIcon

datatype css_class = optionContainer | recentSearchesOptionContainer

text \<open>
  The \<^verbatim>\<open>metadata\<close> prop of an item is an object whose \<^verbatim>\<open>verticalLink\<close> field, when
  present, is tested with \<^verbatim>\<open>typeof ... === 'string'\<close>.
\<close>

datatype meta_field = MetaString string | MetaOther

record metadata =
  verticalLink :: "meta_field option"

text \<open>
  A \<^verbatim>\<open>DropdownItem\<close>: its class, its \<^verbatim>\<open>value\<close> and \<^verbatim>\<open>metadata\<close> props, and what
  \<^verbatim>\<open>renderAutocompleteResult\<close> is given to draw inside it (the displayed value, the icon
  and the aria label).
\<close>

record dropdown_item =
  className :: css_class
  item_value :: string
  item_metadata :: "metadata option"
  display :: string
  item_icon :: "icon option"
  ariaLabel :: "string option"

text \<open>A child of the dropdown menu: an item, or the element holding the entity previews.\<close>

datatype 'e menu_child = Item dropdown_item | EntityPreviews 'e

text \<open>React renders \<^verbatim>\<open>null\<close>, \<^verbatim>\<open>undefined\<close> and \<^verbatim>\<open>false\<close> as nothing.\<close>

definition children_of :: "'a list option \<Rightarrow> 'a list" where
  "children_of xs = (case xs of None \<Rightarrow> [] | Some ys \<Rightarrow> ys)"

subsection \<open>Rendering\<close>

text \<open>
  \<^verbatim>\<open>recentSearches?.filter(search => answersUtilities.isCloseMatch(search.query, query))\<close>;
  \<^verbatim>\<open>isCloseMatch\<close> belongs to the search-state library and is a parameter.
\<close>

definition filteredRecentSearches ::
  "(string \<Rightarrow> string \<Rightarrow> bool) \<Rightarrow> recent_search list option \<Rightarrow> string \<Rightarrow> recent_search list option" where
  "filteredRecentSearches isCloseMatch recentSearches q =
     map_option (filter (\<lambda>search. isCloseMatch (query search) q)) recentSearches"

definition recentSearchItem :: "recent_search \<Rightarrow> dropdown_item" where
  "recentSearchItem result =
     \<lparr> className = recentSearchesOptionContainer,
       item_value = query result,
       item_metadata = None,
       display = query result,
       item_icon = Some RecentSearchIcon,
       ariaLabel = Some (''recent search: '' @ query result) \<rparr>"

definition renderRecentSearches ::
  "bool \<Rightarrow> recent_search list option \<Rightarrow> dropdown_item list option" where
  "renderRecentSearches isVertical filtered =
     (if isVertical then None else map_option (map recentSearchItem) filtered)"

definition querySuggestionItem :: "autocomplete_result \<Rightarrow> dropdown_item" where
  "querySuggestionItem result =
     \<lparr> className = optionContainer,
       item_value = result_value result,
       item_metadata = None,
       display = result_value result,
       item_icon = Some MagnifyingGlassIcon,
       ariaLabel = Some (''autocomplete option: '' @ result_value result) \<rparr>"

definition verticalLinkPath :: "string \<Rightarrow> string \<Rightarrow> string" where
  "verticalLinkPath verticalKey v = ''/'' @ verticalKey @ ''?query='' @ v"

definition verticalLinkItem ::
  "(string \<Rightarrow> string) option \<Rightarrow> autocomplete_result \<Rightarrow> string \<Rightarrow> dropdown_item" where
  "verticalLinkItem keyToLabel result verticalKey =
     \<lparr> className = optionContainer,
       item_value = result_value result,
       item_metadata =
         Some \<lparr> verticalLink = Some (MetaString (verticalLinkPath verticalKey (result_value result))) \<rparr>,
       display = ''in '' @ (case keyToLabel of Some f \<Rightarrow> f verticalKey | None \<Rightarrow> verticalKey),
       item_icon = None,
       ariaLabel = None \<rparr>"

text \<open>
  \<^verbatim>\<open>!hideVerticalLinks && !isVertical && result.verticalKeys?.map(...)\<close>: \<open>None\<close> stands
  for the \<^verbatim>\<open>false\<close> or \<^verbatim>\<open>undefined\<close> the expression evaluates to when a conjunct fails.
\<close>

definition verticalLinkItems ::
  "('v, 'e) props \<Rightarrow> bool \<Rightarrow> autocomplete_result \<Rightarrow> dropdown_item list option" where
  "verticalLinkItems p isVertical result =
     (if truthy (hideVerticalLinks p) then None
      else if isVertical then None
      else map_option (map (verticalLinkItem (verticalKeyToLabel p) result)) (verticalKeys result))"

text \<open>One fragment per autocomplete result: the suggestion, then its vertical links.\<close>

definition suggestionFragment ::
  "('v, 'e) props \<Rightarrow> bool \<Rightarrow> autocomplete_result \<Rightarrow> dropdown_item list" where
  "suggestionFragment p isVertical result =
     querySuggestionItem result # children_of (verticalLinkItems p isVertical result)"

definition renderQuerySuggestions ::
  "('v, 'e) props \<Rightarrow> bool \<Rightarrow> autocomplete_response option \<Rightarrow> dropdown_item list list option" where
  "renderQuerySuggestions p isVertical autocompleteResponse =
     map_option (\<lambda>r. map (suggestionFragment p isVertical) (results r)) autocompleteResponse"

text \<open>
  \<^verbatim>\<open>entityPreviews && transformEntityPreviews(entityPreviews, verticalResultsArray)\<close>, where
  \<^verbatim>\<open>entityPreviews = renderEntityPreviews && renderEntityPreviews(loading, array)\<close>.
  \<^verbatim>\<open>transformEntityPreviews\<close> lives in another module and is a parameter.
\<close>

definition entityPreviews :: "('v, 'e) props \<Rightarrow> bool \<Rightarrow> 'v \<Rightarrow> 'e option" where
  "entityPreviews p entityPreviewsLoading verticalResultsArray =
     map_option (\<lambda>f. f entityPreviewsLoading verticalResultsArray) (renderEntityPreviews p)"

definition entityPreviewChildren ::
  "('e \<Rightarrow> 'v \<Rightarrow> 'e) \<Rightarrow> ('v, 'e) props \<Rightarrow> bool \<Rightarrow> 'v \<Rightarrow> 'e menu_child list" where
  "entityPreviewChildren transformEntityPreviews p loading verticalResultsArray =
     (case entityPreviews p loading verticalResultsArray of
        None \<Rightarrow> []
      | Some el \<Rightarrow> [EntityPreviews (transformEntityPreviews el verticalResultsArray)])"

text \<open>
  \<^verbatim>\<open>!!(autocompleteResponse?.results.length || (!isVertical && filteredRecentSearches?.length))\<close>
\<close>

definition hasItems ::
  "bool \<Rightarrow> autocomplete_response option \<Rightarrow> recent_search list option \<Rightarrow> bool" where
  "hasItems isVertical autocompleteResponse filtered =
     (truthy_number (map_option (\<lambda>r. length (results r)) autocompleteResponse)
      \<or> (\<not> isVertical \<and> truthy_number (map_option length filtered)))"

text \<open>
  The children of \<^verbatim>\<open>StyledDropdownMenu\<close>, in the order the JSX lists them; the menu is
  rendered only when \<^verbatim>\<open>hasItems\<close> holds (\<open>None\<close> otherwise).
\<close>

definition menuChildren ::
  "('e \<Rightarrow> 'v \<Rightarrow> 'e) \<Rightarrow> ('v, 'e) props \<Rightarrow> bool \<Rightarrow> autocomplete_response option \<Rightarrow>
   recent_search list option \<Rightarrow> bool \<Rightarrow> 'v \<Rightarrow> 'e menu_child list" where
  "menuChildren transformEntityPreviews p isVertical autocompleteResponse filtered loading arr =
     map Item (children_of (renderRecentSearches isVertical filtered))
     @ map Item (concat (children_of (renderQuerySuggestions p isVertical autocompleteResponse)))
     @ entityPreviewChildren transformEntityPreviews p loading arr"

definition dropdownMenu ::
  "('e \<Rightarrow> 'v \<Rightarrow> 'e) \<Rightarrow> ('v, 'e) props \<Rightarrow> bool \<Rightarrow> autocomplete_response option \<Rightarrow>
   recent_search list option \<Rightarrow> bool \<Rightarrow> 'v \<Rightarrow> 'e menu_child list option" where
  "dropdownMenu transformEntityPreviews p isVertical autocompleteResponse filtered loading arr =
     (if hasItems isVertical autocompleteResponse filtered
      then Some (menuChildren transformEntityPreviews p isVertical autocompleteResponse filtered loading arr)
      else None)"

subsection \<open>The accessible-count summary\<close>

text \<open>Template literals print a number in decimal.\<close>

definition digit_char :: "nat \<Rightarrow> char" where
  "digit_char d = ''0123456789'' ! d"

function show_nat :: "nat \<Rightarrow> string" where
  "show_nat n = (if n < 10 then [digit_char n] else show_nat (n div 10) @ [digit_char (n mod 10)])"
  by pat_completeness auto
termination
  by (relation "measure id") auto

declare show_nat.simps [simp del]

text \<open>
  \<^verbatim>\<open>String.prototype.trim\<close>. A \<open>string\<close> here is a list of 8-bit characters and the phrases
  of this component are ASCII, so the white space stripped is the ASCII one (space, tab,
  line feed, vertical tab, form feed, carriage return); the no-break space and the other
  Unicode spaces that JavaScript also strips are outside this character type's ASCII range
  and are left in place.
\<close>

definition is_space :: "char \<Rightarrow> bool" where
  "is_space c = (c \<in> set [CHR '' '', CHR 0x09, CHR 0x0A, CHR 0x0B, CHR 0x0C, CHR 0x0D])"

definition trim :: "string \<Rightarrow> string" where
  "trim s = rev (dropWhile is_space (rev (dropWhile is_space s)))"

text \<open>
  \<^verbatim>\<open>getScreenReaderText(autocompleteOptions = 0, recentSearchesOptions = 0)\<close>. The
  formatter \<^verbatim>\<open>processTranslation({phrase, pluralForm, count})\<close> is imported from another
  module and is a parameter, applied to phrase, plural form and count.
\<close>

definition getScreenReaderText ::
  "(string \<Rightarrow> string \<Rightarrow> nat \<Rightarrow> string) \<Rightarrow> nat option \<Rightarrow> nat option \<Rightarrow> string" where
  "getScreenReaderText processTranslation autocompleteOptions recentSearchesOptions =
     (let a = (case autocompleteOptions of None \<Rightarrow> 0 | Some n \<Rightarrow> n);
          r = (case recentSearchesOptions of None \<Rightarrow> 0 | Some n \<Rightarrow> n);
          recentSearchesText =
            (if r > 0
             then processTranslation (show_nat r @ '' recent search found.'')
                    (show_nat r @ '' recent searches found.'') r
             else []);
          autocompleteText =
            processTranslation (show_nat a @ '' autocomplete suggestion found.'')
              (show_nat a @ '' autocomplete suggestions found.'') a
      in trim (recentSearchesText @ '' '' @ autocompleteText))"

text \<open>
  \<^verbatim>\<open>getScreenReaderText(autocompleteResponse?.results.length, filteredRecentSearches?.length)\<close>
\<close>

definition screenReaderText ::
  "(string \<Rightarrow> string \<Rightarrow> nat \<Rightarrow> string) \<Rightarrow> autocomplete_response option \<Rightarrow>
   recent_search list option \<Rightarrow> string" where
  "screenReaderText processTranslation autocompleteResponse filtered =
     getScreenReaderText processTranslation
       (map_option (\<lambda>r. length (results r)) autocompleteResponse)
       (map_option length filtered)"

subsection \<open>Handlers\<close>

datatype query_source = Standard | Autocomplete

text \<open>
  The calls the component makes on its collaborators: the search-state client
  (\<^verbatim>\<open>setQuery\<close>), the hooks (\<^verbatim>\<open>executeEntityPreviewsQuery\<close>, \<^verbatim>\<open>executeAutocomplete\<close>,
  \<^verbatim>\<open>setRecentSearch\<close>, \<^verbatim>\<open>clearRecentSearches\<close>, \<^verbatim>\<open>executeQueryWithNearMeHandling\<close>) and
  the browser history (\<^verbatim>\<open>push\<close>).
\<close>

datatype call =
    SetQuery string
  | ExecuteEntityPreviewsQuery string "(string \<times> nat) list" "string list"
  | ExecuteAutocomplete
  | SetRecentSearch string
  | ClearRecentSearches
  | ExecuteQueryWithNearMeHandling
  | HistoryPush string query_source

text \<open>
  What the handlers read and write: \<^verbatim>\<open>answersActions.state.query.input\<close>, the promise held
  in \<^verbatim>\<open>autocompletePromiseRef.current\<close> (a promise is named by the number of the
  \<^verbatim>\<open>executeAutocomplete\<close> call that returned it), and the calls made so far, oldest first.
\<close>

record world =
  state_query_input :: "string option"
  autocompletePromiseRef :: "nat option"
  calls :: "call list"

definition record_call :: "call \<Rightarrow> world \<Rightarrow> world" where
  "record_call c w = w\<lparr> calls := calls w @ [c] \<rparr>"

text \<open>\<^verbatim>\<open>value || ''\<close>, and the default parameter \<^verbatim>\<open>(value = '')\<close>.\<close>

definition or_empty :: "string option \<Rightarrow> string" where
  "or_empty v = (case v of None \<Rightarrow> [] | Some s \<Rightarrow> s)"

text \<open>\<^verbatim>\<open>answersActions.setQuery\<close> stores the query input of the search state.\<close>

definition setQuery :: "string \<Rightarrow> world \<Rightarrow> world" where
  "setQuery v w = record_call (SetQuery v) (w\<lparr> state_query_input := Some v \<rparr>)"

text \<open>\<^verbatim>\<open>autocompletePromiseRef.current = executeAutocomplete()\<close>\<close>

definition autocomplete_count :: "call list \<Rightarrow> nat" where
  "autocomplete_count cs = length (filter (\<lambda>c. c = ExecuteAutocomplete) cs)"

definition executeAutocomplete :: "world \<Rightarrow> nat \<times> world" where
  "executeAutocomplete w = (Suc (autocomplete_count (calls w)), record_call ExecuteAutocomplete w)"

definition assignAutocompletePromise :: "world \<Rightarrow> world" where
  "assignAutocompletePromise w =
     (case executeAutocomplete w of (promise, w') \<Rightarrow> w'\<lparr> autocompletePromiseRef := Some promise \<rparr>)"

text \<open>
  The request \<^verbatim>\<open>useSynchronizedRequest\<close> is given:
  \<^verbatim>\<open>isVertical ? executeVerticalAutocomplete() : executeUniversalAutocomplete()\<close>.
\<close>

datatype autocomplete_request = ExecuteVerticalAutocomplete | ExecuteUniversalAutocomplete

definition autocompleteRequest :: "bool \<Rightarrow> autocomplete_request" where
  "autocompleteRequest isVertical =
     (if isVertical then ExecuteVerticalAutocomplete else ExecuteUniversalAutocomplete)"

text \<open>
  \<^verbatim>\<open>executeQuery\<close>: records the query input as a recent search unless recent searches are
  hidden or the input is empty, then runs the query with near-me handling.
\<close>

definition executeQuery :: "('v, 'e) props \<Rightarrow> world \<Rightarrow> world" where
  "executeQuery p w =
     (let w1 =
        (if \<not> truthy (hideRecentSearches p)
         then (case state_query_input w of
                 None \<Rightarrow> w
               | Some input \<Rightarrow> if input \<noteq> [] then record_call (SetRecentSearch input) w else w)
         else w)
      in record_call ExecuteQueryWithNearMeHandling w1)"

text \<open>
  \<^verbatim>\<open>updateEntityPreviews\<close>; \<^verbatim>\<open>calculateRestrictVerticals\<close> and
  \<^verbatim>\<open>calculateUniversalLimit\<close> are imported from the entity-previews module.
\<close>

record 'e preview_module =
  calculateRestrictVerticals :: "'e \<Rightarrow> string list"
  calculateUniversalLimit :: "'e \<Rightarrow> (string \<times> nat) list"

definition updateEntityPreviews ::
  "'e preview_module \<Rightarrow> ('v, 'e) props \<Rightarrow> bool \<Rightarrow> 'v \<Rightarrow> string \<Rightarrow> world \<Rightarrow> world" where
  "updateEntityPreviews m p loading arr q w =
     (case renderEntityPreviews p of
        None \<Rightarrow> w
      | Some f \<Rightarrow>
          (let el = f loading arr;
               restrictVerticals = calculateRestrictVerticals m el;
               universalLimit = calculateUniversalLimit m el
           in record_call (ExecuteEntityPreviewsQuery q universalLimit restrictVerticals) w))"

definition onSubmit :: "('v, 'e) props \<Rightarrow> world \<Rightarrow> world" where
  "onSubmit p w = executeQuery p w"

definition onFocus ::
  "'e preview_module \<Rightarrow> ('v, 'e) props \<Rightarrow> bool \<Rightarrow> 'v \<Rightarrow> string option \<Rightarrow> world \<Rightarrow> world" where
  "onFocus m p loading arr v w =
     assignAutocompletePromise
       (updateEntityPreviews m p loading arr (or_empty v) (setQuery (or_empty v) w))"

definition onChange ::
  "'e preview_module \<Rightarrow> ('v, 'e) props \<Rightarrow> bool \<Rightarrow> 'v \<Rightarrow> string option \<Rightarrow> world \<Rightarrow> world" where
  "onChange m p loading arr v w =
     assignAutocompletePromise
       (updateEntityPreviews m p loading arr (or_empty v) (setQuery (or_empty v) w))"

text \<open>\<^verbatim>\<open>metadata && typeof metadata.verticalLink === 'string'\<close>\<close>

definition verticalLinkOf :: "metadata option \<Rightarrow> string option" where
  "verticalLinkOf md =
     (case md of
        None \<Rightarrow> None
      | Some m \<Rightarrow> (case verticalLink m of Some (MetaString l) \<Rightarrow> Some l | _ \<Rightarrow> None))"

definition onSelect :: "('v, 'e) props \<Rightarrow> string option \<Rightarrow> metadata option \<Rightarrow> world \<Rightarrow> world" where
  "onSelect p v md w =
     (let w1 = setQuery (or_empty v) w
      in case verticalLinkOf md of
           Some l \<Rightarrow> record_call (HistoryPush l Autocomplete) w1
         | None \<Rightarrow> executeQuery p (assignAutocompletePromise w1))"

definition onToggle ::
  "'e preview_module \<Rightarrow> ('v, 'e) props \<Rightarrow> bool \<Rightarrow> 'v \<Rightarrow> bool \<Rightarrow> string option \<Rightarrow> world \<Rightarrow> world" where
  "onToggle m p loading arr isActive v w =
     (if \<not> isActive
      then assignAutocompletePromise
             (setQuery (or_empty v) (updateEntityPreviews m p loading arr (or_empty v) w))
      else w)"

text \<open>
  The effect \<^verbatim>\<open>useEffect(() => { if (hideRecentSearches) clearRecentSearches(); },
  [clearRecentSearches, hideRecentSearches])\<close>. React runs an effect after the first render
  and after every render in which a dependency differs from the previous render's; the
  identity of the \<^verbatim>\<open>clearRecentSearches\<close> function is a number.
\<close>

type_synonym effect_deps = "nat \<times> bool option"

definition effect_due :: "effect_deps option \<Rightarrow> effect_deps \<Rightarrow> bool" where
  "effect_due previous deps = (case previous of None \<Rightarrow> True | Some d \<Rightarrow> d \<noteq> deps)"

definition recentSearchesEffect :: "('v, 'e) props \<Rightarrow> world \<Rightarrow> world" where
  "recentSearchesEffect p w =
     (if truthy (hideRecentSearches p) then record_call ClearRecentSearches w else w)"

definition afterRender ::
  "effect_deps option \<Rightarrow> nat \<Rightarrow> ('v, 'e) props \<Rightarrow> world \<Rightarrow> world" where
  "afterRender previous clearRecentSearches p w =
     (if effect_due previous (clearRecentSearches, hideRecentSearches p)
      then recentSearchesEffect p w
      else w)"

text \<open>The calls a handler added to those made before it ran.\<close>

definition new_calls :: "world \<Rightarrow> world \<Rightarrow> call list" where
  "new_calls before after = drop (length (calls before)) (calls after)"

subsection \<open>Reading the rendered list\<close>

text \<open>
  The four kinds of row the specification names, read off what an item carries: a row with a
  vertical-link path in its metadata is a vertical link; otherwise the recent-search icon
  marks a recent search and any other item is a query suggestion.
\<close>

datatype row_kind = RecentSearchRow | QuerySuggestionRow | VerticalLinkRow | EntityPreviewRow

definition item_kind :: "dropdown_item \<Rightarrow> row_kind" where
  "item_kind it =
     (case verticalLinkOf (item_metadata it) of
        Some l \<Rightarrow> VerticalLinkRow
      | None \<Rightarrow> if item_icon it = Some RecentSearchIcon then RecentSearchRow else QuerySuggestionRow)"

fun child_kind :: "'e menu_child \<Rightarrow> row_kind" where
  "child_kind (Item it) = item_kind it"
| "child_kind (EntityPreviews el) = EntityPreviewRow"

definition count_rows :: "row_kind \<Rightarrow> 'e menu_child list \<Rightarrow> nat" where
  "count_rows k rows = length (filter (\<lambda>c. child_kind c = k) rows)"

text \<open>
  The order the specification asks of the list, as a scan from left to right: recent
  searches may only come before everything else; a query suggestion may come anywhere
  before the entity previews; a vertical link may only come while the scan is still behind
  the suggestion with the link's own value; entity previews close the list.
\<close>

datatype scan = AtRecentSearches | AtSuggestion string | AtEntityPreviews

fun ordered_from :: "scan \<Rightarrow> 'e menu_child list \<Rightarrow> bool" where
  "ordered_from ph [] = True"
| "ordered_from ph (EntityPreviews el # cs) = ordered_from AtEntityPreviews cs"
| "ordered_from ph (Item it # cs) =
     (case item_kind it of
        RecentSearchRow \<Rightarrow> ph = AtRecentSearches \<and> ordered_from AtRecentSearches cs
      | QuerySuggestionRow \<Rightarrow> ph \<noteq> AtEntityPreviews \<and> ordered_from (AtSuggestion (item_value it)) cs
      | VerticalLinkRow \<Rightarrow> ph = AtSuggestion (item_value it) \<and> ordered_from ph cs
      | EntityPreviewRow \<Rightarrow> False)"

text \<open>
  The summary as the specification words it: the two counts, each in a phrase of its own,
  whatever the counts are.
\<close>

definition two_phrase_summary ::
  "(string \<Rightarrow> string \<Rightarrow> nat \<Rightarrow> string) \<Rightarrow> nat \<Rightarrow> nat \<Rightarrow> string" where
  "two_phrase_summary processTranslation recentRows suggestionRows =
     processTranslation (show_nat recentRows @ '' recent search found.'')
       (show_nat recentRows @ '' recent searches found.'') recentRows
     @ '' ''
     @ processTranslation (show_nat suggestionRows @ '' autocomplete suggestion found.'')
         (show_nat suggestionRows @ '' autocomplete suggestions found.'') suggestionRows"

text \<open>
  Modelled from the spec: the formatter \<^verbatim>\<open>processTranslation\<close> (utils/processTranslation) is
  not among the sources. Section 6 gives its interface, format(singular, plural, count); a
  pluralising formatter returns the singular phrase for a count of one and the plural form
  otherwise. It is used only to evaluate the summary at concrete inputs.
\<close>

definition pluralize :: "string \<Rightarrow> string \<Rightarrow> nat \<Rightarrow> string" where
  "pluralize phrase pluralForm n = (if n = 1 then phrase else pluralForm)"

subsection \<open>The request synchronizer\<close>

text \<open>
  Modelled from the spec: the hook \<^verbatim>\<open>useSynchronizedRequest\<close> (hooks/useSynchronizedRequest)
  is not among the sources. Section 4.1: on issue the synchronizer increments a private
  counter to obtain \<open>seq\<close>, stores it as \<open>latestIssued\<close> and calls the fetch; when the fetch
  resolves, its result is published only if \<open>seq = latestIssued\<close> at that moment, and is
  discarded otherwise. The fetches still in flight are kept with the response each will
  resolve with.
\<close>

record 'r synchronizer =
  latestIssued :: nat
  in_flight :: "nat \<rightharpoonup> 'r"
  published :: "'r option"

datatype 'r sync_event = Issue 'r | Resolve nat

definition sync_init :: "'r synchronizer" where
  "sync_init = \<lparr> latestIssued = 0, in_flight = Map.empty, published = None \<rparr>"

text \<open>Modelled from the spec: issuing a request (section 4.1), see above.\<close>

definition issue :: "'r \<Rightarrow> 'r synchronizer \<Rightarrow> 'r synchronizer" where
  "issue r s =
     (let seq = Suc (latestIssued s)
      in s\<lparr> latestIssued := seq, in_flight := (in_flight s)(seq \<mapsto> r) \<rparr>)"

text \<open>
  Modelled from the spec: the resolution of request \<open>seq\<close> (section 4.1), see above. A request
  that is not in flight cannot resolve.
\<close>

definition resolve :: "nat \<Rightarrow> 'r synchronizer \<Rightarrow> 'r synchronizer" where
  "resolve seq s =
     (case in_flight s seq of
        None \<Rightarrow> s
      | Some r \<Rightarrow>
          (let s' = s\<lparr> in_flight := (in_flight s)(seq := None) \<rparr>
           in if seq = latestIssued s then s'\<lparr> published := Some r \<rparr> else s'))"

fun sync_step :: "'r sync_event \<Rightarrow> 'r synchronizer \<Rightarrow> 'r synchronizer" where
  "sync_step (Issue r) s = issue r s"
| "sync_step (Resolve seq) s = resolve seq s"

definition run_sync :: "'r sync_event list \<Rightarrow> 'r synchronizer" where
  "run_sync evs = fold sync_step evs sync_init"

text \<open>The responses of the requests a trace issues, in the order of issue.\<close>

fun issued :: "'r sync_event list \<Rightarrow> 'r list" where
  "issued [] = []"
| "issued (Issue r # evs) = r # issued evs"
| "issued (Resolve seq # evs) = issued evs"

subsection \<open>The near-me dispatch policy\<close>

text \<open>
  Modelled from the spec: the hook \<^verbatim>\<open>useSearchWithNearMeHandling\<close>
  (hooks/useSearchWithNearMeHandling) is not among the sources. Section 4.4: a dispatched
  query that matches the near-me intent while no location has been resolved requests the
  platform's geolocation and races it against a fixed timeout; on success the dispatched
  query carries the resolved coordinates, on timeout or denial the original query is
  dispatched unmodified and a non-fatal warning is surfaced; while a geolocation request is
  outstanding, further dispatches wait for it instead of issuing a second one.
\<close>

type_synonym coordinates = "int \<times> int"

datatype geo_result = Located coordinates | PermissionDenied | PositionUnavailable










subsection \<open>Sample inputs\<close>

text \<open>Concrete props, data and state at which the properties below are evaluated.\<close>

definition sample_props :: "(unit, unit) props" where
  "sample_props = \<lparr> hideRecentSearches = None, hideVerticalLinks = None,
                     verticalKeyToLabel = None, renderEntityPreviews = None \<rparr>"

definition sample_response :: "autocomplete_response" where
  "sample_response = \<lparr> results = [\<lparr> result_value = ''b'', verticalKeys = Some [''k1''] \<rparr>] \<rparr>"

definition sample_recent :: "recent_search list" where
  "sample_recent = [\<lparr> query = ''a'' \<rparr>]"

definition sample_preview_props :: "(string list, string) props" where
  "sample_preview_props =
     \<lparr> hideRecentSearches = None, hideVerticalLinks = None, verticalKeyToLabel = None,
       renderEntityPreviews = Some (\<lambda>loading arr. if loading then ''loading'' else ''previews'') \<rparr>"

definition sample_world :: world where
  "sample_world = \<lparr> state_query_input = Some ''a'', autocompletePromiseRef = None,
                     calls = [SetRecentSearch ''a''] \<rparr>"

subsection \<open>Proof invariants\<close>

text \<open>The invariant of the synchronizer along a trace, used to prove the claim about it.\<close>

definition sync_inv :: "'r sync_event list \<Rightarrow> 'r synchronizer \<Rightarrow> bool" where
  "sync_inv evs s \<longleftrightarrow>
     latestIssued s = length (issued evs)
     \<and> (\<forall>k r. in_flight s k = Some r \<longrightarrow> 1 \<le> k \<and> k \<le> length (issued evs))
     \<and> (issued evs \<noteq> [] \<and> in_flight s (length (issued evs)) = None
          \<longrightarrow> published s = Some (last (issued evs)))
     \<and> (\<forall>r. in_flight s (length (issued evs)) = Some r \<longrightarrow> r = last (issued evs))"

section \<open>Properties\<close>

subsection \<open>Auxiliary facts\<close>

lemma children_of_simps: "children_of None = []" "children_of (Some xs) = xs"
  by (simp_all add: children_of_def)

lemma verticalLinkOf_verticalLinkItem:
  "verticalLinkOf (item_metadata (verticalLinkItem lbl r k)) = Some (verticalLinkPath k (result_value r))"
  by (simp add: verticalLinkOf_def verticalLinkItem_def)

lemma verticalLinkOf_querySuggestionItem: "verticalLinkOf (item_metadata (querySuggestionItem r)) = None"
  by (simp add: verticalLinkOf_def querySuggestionItem_def)

lemma verticalLinkOf_recentSearchItem: "verticalLinkOf (item_metadata (recentSearchItem r)) = None"
  by (simp add: verticalLinkOf_def recentSearchItem_def)

lemma calls_record_call: "calls (record_call c w) = calls w @ [c]"
  by (simp add: record_call_def)

lemma calls_setQuery: "calls (setQuery v w) = calls w @ [SetQuery v]"
  by (simp add: setQuery_def record_call_def)

lemma input_setQuery: "state_query_input (setQuery v w) = Some v"
  by (simp add: setQuery_def record_call_def)

lemma calls_assign: "calls (assignAutocompletePromise w) = calls w @ [ExecuteAutocomplete]"
  by (simp add: assignAutocompletePromise_def executeAutocomplete_def record_call_def)

lemma input_assign: "state_query_input (assignAutocompletePromise w) = state_query_input w"
  by (simp add: assignAutocompletePromise_def executeAutocomplete_def record_call_def)

lemma calls_executeQuery:
  "calls (executeQuery p w) =
     calls w
     @ (if \<not> truthy (hideRecentSearches p) \<and> or_empty (state_query_input w) \<noteq> []
        then [SetRecentSearch (or_empty (state_query_input w))] else [])
     @ [ExecuteQueryWithNearMeHandling]"
  by (simp add: executeQuery_def record_call_def or_empty_def Let_def split: option.splits)

lemma calls_onSelect_plain:
  "verticalLinkOf md = None \<Longrightarrow>
   calls (onSelect p v md w) =
     calls w @ [SetQuery (or_empty v), ExecuteAutocomplete]
     @ (if \<not> truthy (hideRecentSearches p) \<and> or_empty v \<noteq> [] then [SetRecentSearch (or_empty v)] else [])
     @ [ExecuteQueryWithNearMeHandling]"
  by (simp add: onSelect_def Let_def calls_executeQuery calls_assign input_assign calls_setQuery input_setQuery or_empty_def)

lemma calls_onSelect_link:
  "verticalLinkOf md = Some l \<Longrightarrow>
   calls (onSelect p v md w) = calls w @ [SetQuery (or_empty v), HistoryPush l Autocomplete]"
  by (simp add: onSelect_def Let_def calls_record_call calls_setQuery)

lemma item_value_verticalLinkItem: "item_value (verticalLinkItem lbl r k) = result_value r"
  by (simp add: verticalLinkItem_def)

lemma item_kind_recentSearchItem: "item_kind (recentSearchItem r) = RecentSearchRow"
  by (simp add: item_kind_def verticalLinkOf_recentSearchItem) (simp add: recentSearchItem_def)

lemma item_kind_querySuggestionItem: "item_kind (querySuggestionItem r) = QuerySuggestionRow"
  by (simp add: item_kind_def verticalLinkOf_querySuggestionItem) (simp add: querySuggestionItem_def)

lemma item_kind_verticalLinkItem: "item_kind (verticalLinkItem lbl r k) = VerticalLinkRow"
  by (simp add: item_kind_def verticalLinkOf_verticalLinkItem)

lemma ordered_recent_rows:
  "ordered_from AtRecentSearches (map (Item \<circ> recentSearchItem) xs @ rest)
   = ordered_from AtRecentSearches rest"
  by (induction xs) (simp_all add: item_kind_recentSearchItem)

lemma ordered_link_rows:
  "ordered_from (AtSuggestion (result_value r)) (map (Item \<circ> verticalLinkItem lbl r) ks @ rest)
   = ordered_from (AtSuggestion (result_value r)) rest"
  by (induction ks) (simp_all add: item_kind_verticalLinkItem item_value_verticalLinkItem)

lemma ordered_fragment:
  "ph \<noteq> AtEntityPreviews \<Longrightarrow>
   ordered_from ph (map Item (suggestionFragment p isVertical r) @ rest)
   = ordered_from (AtSuggestion (result_value r)) rest"
proof -
  assume ph: "ph \<noteq> AtEntityPreviews"
  have v: "item_value (querySuggestionItem r) = result_value r"
    by (simp add: querySuggestionItem_def)
  have links: "ordered_from (AtSuggestion (result_value r))
      (map Item (children_of (verticalLinkItems p isVertical r)) @ rest)
    = ordered_from (AtSuggestion (result_value r)) rest"
  proof (cases "verticalLinkItems p isVertical r")
    case None
    then show ?thesis by (simp add: children_of_simps)
  next
    case (Some its)
    then obtain ks where "its = map (verticalLinkItem (verticalKeyToLabel p) r) ks"
      by (auto simp: verticalLinkItems_def split: if_splits)
    with Some show ?thesis by (simp add: children_of_simps ordered_link_rows)
  qed
  show ?thesis
    using ph links by (simp add: suggestionFragment_def item_kind_querySuggestionItem v)
qed

lemma ordered_fragments:
  "ph \<noteq> AtEntityPreviews \<Longrightarrow> (\<And>ph'. ph' \<noteq> AtEntityPreviews \<Longrightarrow> ordered_from ph' rest) \<Longrightarrow>
   ordered_from ph (map Item (concat (map (suggestionFragment p isVertical) rs)) @ rest)"
proof (induction rs arbitrary: ph)
  case Nil
  then show ?case by simp
next
  case (Cons r rs)
  have "ordered_from (AtSuggestion (result_value r))
      (map Item (concat (map (suggestionFragment p isVertical) rs)) @ rest)"
    by (rule Cons.IH) (simp_all add: Cons.prems(2))
  then show ?case
    by (simp add: ordered_fragment [OF Cons.prems(1)])
qed

lemma ordered_entity_previews: "ordered_from ph (entityPreviewChildren t p loading arr)"
  by (simp add: entityPreviewChildren_def split: option.splits)

lemma recent_children:
  "\<exists>xs. children_of (renderRecentSearches isVertical filtered) = map recentSearchItem xs"
proof (cases "isVertical \<or> filtered = None")
  case True
  then have "children_of (renderRecentSearches isVertical filtered) = map recentSearchItem []"
    by (auto simp: renderRecentSearches_def children_of_simps)
  then show ?thesis by blast
next
  case False
  then obtain xs where "filtered = Some xs" by auto
  with False have "children_of (renderRecentSearches isVertical filtered) = map recentSearchItem xs"
    by (simp add: renderRecentSearches_def children_of_simps)
  then show ?thesis by blast
qed

lemma ordered_menuChildren:
  "ordered_from AtRecentSearches (menuChildren t p isVertical resp filtered loading arr)"
proof -
  have sugg: "ordered_from AtRecentSearches
      (map Item (concat (children_of (renderQuerySuggestions p isVertical resp)))
       @ entityPreviewChildren t p loading arr)"
  proof (cases resp)
    case None
    then show ?thesis
      by (simp add: renderQuerySuggestions_def children_of_simps ordered_entity_previews)
  next
    case (Some r)
    then show ?thesis
      by (simp add: renderQuerySuggestions_def children_of_simps ordered_fragments ordered_entity_previews)
  qed
  obtain xs where "children_of (renderRecentSearches isVertical filtered) = map recentSearchItem xs"
    using recent_children by blast
  then show ?thesis
    using sugg by (simp add: menuChildren_def ordered_recent_rows)
qed

lemma count_rows_append: "count_rows k (xs @ ys) = count_rows k xs + count_rows k ys"
  by (simp add: count_rows_def)

lemma count_rows_Nil: "count_rows k [] = 0"
  by (simp add: count_rows_def)

lemma count_recent_rows:
  "count_rows k (map (Item \<circ> recentSearchItem) xs) = (if k = RecentSearchRow then length xs else 0)"
  by (induction xs) (auto simp: count_rows_def item_kind_recentSearchItem)

lemma count_link_rows:
  "count_rows k (map (Item \<circ> verticalLinkItem lbl r) ks) = (if k = VerticalLinkRow then length ks else 0)"
  by (induction ks) (auto simp: count_rows_def item_kind_verticalLinkItem)

lemma count_fragment:
  "k \<noteq> VerticalLinkRow \<Longrightarrow>
   count_rows k (map Item (suggestionFragment p isVertical r)) = (if k = QuerySuggestionRow then 1 else 0)"
proof -
  assume k: "k \<noteq> VerticalLinkRow"
  have "count_rows k (map Item (children_of (verticalLinkItems p isVertical r))) = 0"
  proof (cases "verticalLinkItems p isVertical r")
    case None
    then show ?thesis by (simp add: children_of_simps count_rows_Nil)
  next
    case (Some its)
    then obtain ks where "its = map (verticalLinkItem (verticalKeyToLabel p) r) ks"
      by (auto simp: verticalLinkItems_def split: if_splits)
    with Some k show ?thesis by (simp add: children_of_simps count_link_rows)
  qed
  then show ?thesis
    by (auto simp: suggestionFragment_def count_rows_def item_kind_querySuggestionItem)
qed

lemma count_fragments:
  "k \<noteq> VerticalLinkRow \<Longrightarrow>
   count_rows k (map Item (concat (map (suggestionFragment p isVertical) rs)))
   = (if k = QuerySuggestionRow then length rs else 0)"
  by (induction rs) (auto simp: count_rows_append count_fragment count_rows_Nil)

lemma count_entity_previews:
  "k \<noteq> EntityPreviewRow \<Longrightarrow> count_rows k (entityPreviewChildren t p loading arr) = 0"
  by (simp add: entityPreviewChildren_def count_rows_def split: option.splits)

lemma count_recent_menuChildren:
  "count_rows RecentSearchRow (menuChildren t p isVertical resp filtered loading arr)
   = (if isVertical then 0 else case filtered of None \<Rightarrow> 0 | Some xs \<Rightarrow> length xs)"
proof -
  have a: "count_rows RecentSearchRow (map Item (children_of (renderRecentSearches isVertical filtered)))
     = (if isVertical then 0 else case filtered of None \<Rightarrow> 0 | Some xs \<Rightarrow> length xs)"
    by (cases filtered) (simp_all add: renderRecentSearches_def children_of_simps count_rows_Nil count_recent_rows)
  have b: "count_rows RecentSearchRow
     (map Item (concat (children_of (renderQuerySuggestions p isVertical resp)))) = 0"
    by (cases resp) (simp_all add: renderQuerySuggestions_def children_of_simps count_rows_Nil count_fragments)
  show ?thesis
    by (simp add: menuChildren_def count_rows_append a b count_entity_previews)
qed

lemma count_suggestion_menuChildren:
  "count_rows QuerySuggestionRow (menuChildren t p isVertical resp filtered loading arr)
   = (case resp of None \<Rightarrow> 0 | Some r \<Rightarrow> length (results r))"
proof -
  have a: "count_rows QuerySuggestionRow (map Item (children_of (renderRecentSearches isVertical filtered))) = 0"
    by (cases filtered) (simp_all add: renderRecentSearches_def children_of_simps count_rows_Nil count_recent_rows)
  have b: "count_rows QuerySuggestionRow
     (map Item (concat (children_of (renderQuerySuggestions p isVertical resp))))
     = (case resp of None \<Rightarrow> 0 | Some r \<Rightarrow> length (results r))"
    by (cases resp) (simp_all add: renderQuerySuggestions_def children_of_simps count_rows_Nil count_fragments)
  show ?thesis
    by (simp add: menuChildren_def count_rows_append a b count_entity_previews)
qed

lemma rendered_counts:
  "\<not> isVertical \<Longrightarrow>
   count_rows RecentSearchRow (children_of (dropdownMenu t p isVertical resp filtered loading arr))
     = (case filtered of None \<Rightarrow> 0 | Some xs \<Rightarrow> length xs)
   \<and> count_rows QuerySuggestionRow (children_of (dropdownMenu t p isVertical resp filtered loading arr))
     = (case resp of None \<Rightarrow> 0 | Some r \<Rightarrow> length (results r))"
  by (auto simp: dropdownMenu_def children_of_simps count_recent_menuChildren count_suggestion_menuChildren
      count_rows_Nil hasItems_def truthy_number_def split: option.splits)

lemma run_sync_snoc: "run_sync (evs @ [e]) = sync_step e (run_sync evs)"
  by (simp add: run_sync_def)

lemma issued_append: "issued (xs @ ys) = issued xs @ issued ys"
  by (induction xs rule: issued.induct) simp_all

lemma latestIssued_resolve: "latestIssued (resolve k s) = latestIssued s"
  by (simp add: resolve_def Let_def split: option.splits)

lemma in_flight_resolve: "in_flight (resolve k s) = (in_flight s)(k := None)"
  by (auto simp: resolve_def Let_def split: option.splits)

lemma published_resolve:
  "published (resolve k s) =
     (if k = latestIssued s then (case in_flight s k of None \<Rightarrow> published s | Some r \<Rightarrow> Some r)
      else published s)"
  by (simp add: resolve_def Let_def split: option.splits)

lemma resolve_all:
  "published (fold sync_step (map Resolve order) s) =
     (if latestIssued s \<in> set order
      then (case in_flight s (latestIssued s) of None \<Rightarrow> published s | Some r \<Rightarrow> Some r)
      else published s)"
proof (induction order arbitrary: s)
  case Nil
  then show ?case by simp
next
  case (Cons k ks)
  show ?case
    by (simp add: Cons.IH latestIssued_resolve in_flight_resolve published_resolve split: option.splits)
qed

lemma issue_all:
  "latestIssued (fold sync_step (map Issue rs) s) = latestIssued s + length rs
   \<and> published (fold sync_step (map Issue rs) s) = published s
   \<and> (rs \<noteq> [] \<longrightarrow> in_flight (fold sync_step (map Issue rs) s) (latestIssued s + length rs) = Some (last rs))"
proof (induction rs arbitrary: s)
  case Nil
  then show ?case by simp
next
  case (Cons r rs)
  have a: "latestIssued (issue r s) = Suc (latestIssued s)"
    by (simp add: issue_def Let_def)
  have b: "published (issue r s) = published s"
    by (simp add: issue_def Let_def)
  have c: "in_flight (issue r s) (Suc (latestIssued s)) = Some r"
    by (simp add: issue_def Let_def)
  show ?case
    using Cons.IH [of "issue r s"] by (cases rs) (simp_all add: a b c)
qed

lemma issue_then_resolve:
  "published (run_sync (map Issue rs @ map Resolve order)) =
     (if rs \<noteq> [] \<and> length rs \<in> set order then Some (last rs) else None)"
proof -
  let ?s = "fold sync_step (map Issue rs) sync_init"
  have l: "latestIssued ?s = length rs" and p: "published ?s = None"
    using issue_all [of rs sync_init] by (simp_all add: sync_init_def)
  have f: "rs \<noteq> [] \<Longrightarrow> in_flight ?s (length rs) = Some (last rs)"
    using issue_all [of rs sync_init] by (simp add: sync_init_def)
  have e: "rs = [] \<Longrightarrow> in_flight ?s (length rs) = None"
    by (simp add: sync_init_def)
  show ?thesis
  proof (cases "rs = []")
    case True
    then show ?thesis
      by (simp add: run_sync_def resolve_all sync_init_def)
  next
    case False
    then show ?thesis
      using f by (simp add: run_sync_def resolve_all l p)
  qed
qed

lemma sync_inv_run: "sync_inv evs (run_sync evs)"
proof (induction evs rule: rev_induct)
  case Nil
  then show ?case by (simp add: sync_inv_def run_sync_def sync_init_def)
next
  case (snoc e evs)
  show ?case
  proof (cases e)
    case (Issue r)
    with snoc show ?thesis
      by (auto simp: sync_inv_def run_sync_snoc issued_append issue_def Let_def)
  next
    case (Resolve k)
    with snoc show ?thesis
      by (auto simp: sync_inv_def run_sync_snoc issued_append latestIssued_resolve in_flight_resolve
          published_resolve split: option.splits)
  qed
qed





lemma menuChildren_layout:
  "menuChildren t p isVertical resp filtered loading arr =
     map (Item \<circ> recentSearchItem) (if isVertical then [] else children_of filtered)
     @ concat (map (\<lambda>r. Item (querySuggestionItem r)
                        # map (Item \<circ> verticalLinkItem (verticalKeyToLabel p) r)
                            (if truthy (hideVerticalLinks p) \<or> isVertical then []
                             else children_of (verticalKeys r)))
                 (case resp of None \<Rightarrow> [] | Some r \<Rightarrow> results r))
     @ entityPreviewChildren t p loading arr"
proof -
  have recent:
    "map Item (children_of (renderRecentSearches isVertical filtered))
     = map (Item \<circ> recentSearchItem) (if isVertical then [] else children_of filtered)"
    by (cases filtered) (simp_all add: renderRecentSearches_def children_of_simps)
  have frag: "map Item (suggestionFragment p isVertical r)
     = Item (querySuggestionItem r)
       # map (Item \<circ> verticalLinkItem (verticalKeyToLabel p) r)
           (if truthy (hideVerticalLinks p) \<or> isVertical then [] else children_of (verticalKeys r))"
    for r
    by (cases "verticalKeys r")
       (simp_all add: suggestionFragment_def verticalLinkItems_def children_of_simps)
  have sugg:
    "map Item (concat (children_of (renderQuerySuggestions p isVertical resp)))
     = concat (map (\<lambda>r. map Item (suggestionFragment p isVertical r))
         (case resp of None \<Rightarrow> [] | Some r \<Rightarrow> results r))"
    by (cases resp) (simp_all add: renderQuerySuggestions_def children_of_simps map_concat comp_def)
  show ?thesis
    unfolding menuChildren_def recent sugg frag by (rule refl)
qed

lemma calls_updateEntityPreviews:
  "calls (updateEntityPreviews m p loading arr q w) =
     calls w @ (case renderEntityPreviews p of
                  None \<Rightarrow> []
                | Some f \<Rightarrow> [ExecuteEntityPreviewsQuery q (calculateUniversalLimit m (f loading arr))
                               (calculateRestrictVerticals m (f loading arr))])"
  by (simp add: updateEntityPreviews_def Let_def record_call_def split: option.splits)

lemma new_calls_onFocus:
  "new_calls w (onFocus m p loading arr v w) =
     SetQuery (or_empty v)
     # (case renderEntityPreviews p of
          None \<Rightarrow> []
        | Some f \<Rightarrow> [ExecuteEntityPreviewsQuery (or_empty v) (calculateUniversalLimit m (f loading arr))
                       (calculateRestrictVerticals m (f loading arr))])
     @ [ExecuteAutocomplete]"
  by (simp add: new_calls_def onFocus_def calls_assign calls_updateEntityPreviews calls_setQuery)

lemma new_calls_onChange:
  "new_calls w (onChange m p loading arr v w) = new_calls w (onFocus m p loading arr v w)"
  by (simp add: onChange_def onFocus_def)

lemma new_calls_onToggle:
  "new_calls w (onToggle m p loading arr isActive v w) =
     (if isActive then []
      else (case renderEntityPreviews p of
              None \<Rightarrow> []
            | Some f \<Rightarrow> [ExecuteEntityPreviewsQuery (or_empty v) (calculateUniversalLimit m (f loading arr))
                           (calculateRestrictVerticals m (f loading arr))])
           @ [SetQuery (or_empty v), ExecuteAutocomplete])"
  by (simp add: new_calls_def onToggle_def calls_assign calls_updateEntityPreviews calls_setQuery)

lemma new_calls_onSubmit:
  "new_calls w (onSubmit p w) =
     (if \<not> truthy (hideRecentSearches p) \<and> or_empty (state_query_input w) \<noteq> []
      then [SetRecentSearch (or_empty (state_query_input w))] else [])
     @ [ExecuteQueryWithNearMeHandling]"
  by (simp add: new_calls_def onSubmit_def calls_executeQuery)

lemma new_calls_onSelect:
  "new_calls w (onSelect p v md w) =
     (case verticalLinkOf md of
        Some l \<Rightarrow> [SetQuery (or_empty v), HistoryPush l Autocomplete]
      | None \<Rightarrow> [SetQuery (or_empty v), ExecuteAutocomplete]
          @ (if \<not> truthy (hideRecentSearches p) \<and> or_empty v \<noteq> [] then [SetRecentSearch (or_empty v)] else [])
          @ [ExecuteQueryWithNearMeHandling])"
  by (cases "verticalLinkOf md") (simp_all add: new_calls_def calls_onSelect_plain calls_onSelect_link)

lemma handlers_never_clear:
  "ClearRecentSearches \<notin> set (new_calls w (onSubmit p w))
   \<and> ClearRecentSearches \<notin> set (new_calls w (onFocus m p loading arr v w))
   \<and> ClearRecentSearches \<notin> set (new_calls w (onChange m p loading arr v w))
   \<and> ClearRecentSearches \<notin> set (new_calls w (onSelect p v md w))
   \<and> ClearRecentSearches \<notin> set (new_calls w (onToggle m p loading arr isActive v w))"
  by (simp add: new_calls_onSubmit new_calls_onChange new_calls_onFocus new_calls_onSelect
      new_calls_onToggle split: option.splits)

lemma entityPreviewChildren_layout:
  "entityPreviewChildren t p loading arr =
     (case renderEntityPreviews p of
        None \<Rightarrow> []
      | Some f \<Rightarrow> [EntityPreviews (t (f loading arr) arr)])"
  by (simp add: entityPreviewChildren_def entityPreviews_def split: option.splits)

lemma count_preview_menuChildren:
  "count_rows EntityPreviewRow (menuChildren t p isVertical resp filtered loading arr)
   = (case renderEntityPreviews p of None \<Rightarrow> 0 | Some f \<Rightarrow> 1)"
proof -
  have a: "count_rows EntityPreviewRow (map Item (children_of (renderRecentSearches isVertical filtered))) = 0"
    by (cases filtered) (simp_all add: renderRecentSearches_def children_of_simps count_rows_Nil count_recent_rows)
  have b: "count_rows EntityPreviewRow
     (map Item (concat (children_of (renderQuerySuggestions p isVertical resp)))) = 0"
    by (cases resp) (simp_all add: renderQuerySuggestions_def children_of_simps count_rows_Nil count_fragments)
  have c: "count_rows EntityPreviewRow (entityPreviewChildren t p loading arr)
     = (case renderEntityPreviews p of None \<Rightarrow> 0 | Some f \<Rightarrow> 1)"
    by (simp add: entityPreviewChildren_layout count_rows_def split: option.splits)
  show ?thesis
    by (simp add: menuChildren_def count_rows_append a b c)
qed

lemma last_menuChildren:
  "renderEntityPreviews p = Some f \<Longrightarrow>
   menuChildren t p isVertical resp filtered loading arr \<noteq> []
   \<and> last (menuChildren t p isVertical resp filtered loading arr) = EntityPreviews (t (f loading arr) arr)"
  by (simp add: menuChildren_def entityPreviewChildren_layout)





lemmas render_defs =
  dropdownMenu_def menuChildren_def hasItems_def truthy_number_def renderRecentSearches_def
  renderQuerySuggestions_def suggestionFragment_def verticalLinkItems_def truthy_def
  entityPreviewChildren_def entityPreviews_def children_of_def recentSearchItem_def
  querySuggestionItem_def verticalLinkItem_def verticalLinkPath_def
  sample_props_def sample_response_def sample_recent_def

lemmas kind_defs = item_kind_def verticalLinkOf_def count_rows_def

lemma show_nat_0: "show_nat 0 = ''0''"
  by (subst show_nat.simps) (simp add: digit_char_def)

lemma show_nat_1: "show_nat (Suc 0) = ''1''"
  by (subst show_nat.simps) (simp add: digit_char_def)

lemmas summary_defs =
  screenReaderText_def getScreenReaderText_def two_phrase_summary_def pluralize_def trim_def
  is_space_def show_nat_0 show_nat_1

subsection \<open>The claims\<close>

text \<open>
  Claim C1. Against the synchronizer of section 4.1: when a sequence of requests has been
  issued and their responses arrive in any order (any list of sequence numbers, so also any
  prefix of any permutation), the published response is that of the request issued last as
  soon as that request has resolved, and nothing is published before; the resolution of a
  request that is not the most recently issued one leaves the published response as it was;
  and in every trace that interleaves issues and resolutions, once the most recently issued
  request has resolved, the published response is its response.
\<close>

theorem latest_request_wins:
  "published (run_sync (map Issue rs @ map Resolve order)) =
     (if rs \<noteq> [] \<and> length rs \<in> set order then Some (last rs) else None)
   \<and> (seq \<noteq> latestIssued (run_sync evs) \<longrightarrow>
        published (run_sync (evs @ [Resolve seq])) = published (run_sync evs))
   \<and> latestIssued (run_sync evs) = length (issued evs)
   \<and> (issued evs \<noteq> [] \<and> in_flight (run_sync evs) (length (issued evs)) = None \<longrightarrow>
        published (run_sync evs) = Some (last (issued evs)))"
proof -
  have a: "seq \<noteq> latestIssued (run_sync evs) \<longrightarrow>
        published (run_sync (evs @ [Resolve seq])) = published (run_sync evs)"
    by (simp add: run_sync_snoc published_resolve)
  show ?thesis
    using a sync_inv_run [of evs] issue_then_resolve [of rs order]
    by (simp add: sync_inv_def)
qed

theorem latest_request_wins_witness:
  "published (run_sync (map Issue [''a'', ''b'', ''c''] @ map Resolve [2, 3, 1])) = Some ''c''
   \<and> 1 \<noteq> latestIssued (run_sync [Issue ''a'', Issue ''b'', Resolve 2])
   \<and> published (run_sync ([Issue ''a'', Issue ''b'', Resolve 2] @ [Resolve 1])) = Some ''b''
   \<and> issued [Issue ''a'', Issue ''b'', Resolve 2] \<noteq> []
   \<and> in_flight (run_sync [Issue ''a'', Issue ''b'', Resolve 2])
        (length (issued [Issue ''a'', Issue ''b'', Resolve 2])) = None
   \<and> published (run_sync [Issue ''a'', Issue ''b'', Resolve 2]) = Some ''b''"
  using latest_request_wins [of "[''a'', ''b'', ''c'']" "[2, 3, 1]" 1 "[Issue ''a'', Issue ''b'', Resolve 2]"]
  by (simp add: run_sync_def sync_init_def issue_def resolve_def Let_def)

text \<open>
  Claim C2. The rendered list (the children of the menu, none when the menu is not
  rendered) is the recent-search rows (none in vertical context), then for each autocomplete
  result in turn its suggestion row followed by its vertical-link rows, then, when
  \<^verbatim>\<open>renderEntityPreviews\<close> is supplied, the one element holding the transformed entity
  previews. It passes the left-to-right scan of the required order, in which a vertical
  link is accepted only behind the suggestion with the link's own value; in vertical
  context it has no recent-search row; and whenever the menu is rendered with entity
  previews supplied, the entity-preview element is its last child and its only one.
\<close>

theorem aggregation_order:
  "children_of (dropdownMenu t p isVertical resp filtered loading arr) =
     (if hasItems isVertical resp filtered
      then map (Item \<circ> recentSearchItem) (if isVertical then [] else children_of filtered)
           @ concat (map (\<lambda>r. Item (querySuggestionItem r)
                              # map (Item \<circ> verticalLinkItem (verticalKeyToLabel p) r)
                                  (if truthy (hideVerticalLinks p) \<or> isVertical then []
                                   else children_of (verticalKeys r)))
                       (case resp of None \<Rightarrow> [] | Some r \<Rightarrow> results r))
           @ (case renderEntityPreviews p of
                None \<Rightarrow> []
              | Some f \<Rightarrow> [EntityPreviews (t (f loading arr) arr)])
      else [])
   \<and> ordered_from AtRecentSearches
        (children_of (dropdownMenu t p isVertical resp filtered loading arr))
   \<and> (isVertical \<longrightarrow>
        count_rows RecentSearchRow (children_of (dropdownMenu t p isVertical resp filtered loading arr)) = 0)
   \<and> (hasItems isVertical resp filtered \<and> renderEntityPreviews p = Some g \<longrightarrow>
        children_of (dropdownMenu t p isVertical resp filtered loading arr) \<noteq> []
        \<and> last (children_of (dropdownMenu t p isVertical resp filtered loading arr))
            = EntityPreviews (t (g loading arr) arr))
   \<and> count_rows EntityPreviewRow (children_of (dropdownMenu t p isVertical resp filtered loading arr))
      = (if hasItems isVertical resp filtered \<and> renderEntityPreviews p \<noteq> None then 1 else 0)"
proof -
  have layout: "children_of (dropdownMenu t p isVertical resp filtered loading arr) =
     (if hasItems isVertical resp filtered
      then map (Item \<circ> recentSearchItem) (if isVertical then [] else children_of filtered)
           @ concat (map (\<lambda>r. Item (querySuggestionItem r)
                              # map (Item \<circ> verticalLinkItem (verticalKeyToLabel p) r)
                                  (if truthy (hideVerticalLinks p) \<or> isVertical then []
                                   else children_of (verticalKeys r)))
                       (case resp of None \<Rightarrow> [] | Some r \<Rightarrow> results r))
           @ (case renderEntityPreviews p of
                None \<Rightarrow> []
              | Some f \<Rightarrow> [EntityPreviews (t (f loading arr) arr)])
      else [])"
    unfolding dropdownMenu_def
    by (simp only: menuChildren_layout entityPreviewChildren_layout children_of_simps
        if_distrib [of children_of] cong: if_cong)
  have scan: "ordered_from AtRecentSearches
      (children_of (dropdownMenu t p isVertical resp filtered loading arr))"
    by (simp add: dropdownMenu_def children_of_simps ordered_menuChildren)
  have vertical: "isVertical \<longrightarrow>
      count_rows RecentSearchRow (children_of (dropdownMenu t p isVertical resp filtered loading arr)) = 0"
    by (simp add: dropdownMenu_def children_of_simps count_recent_menuChildren count_rows_Nil)
  have final: "hasItems isVertical resp filtered \<and> renderEntityPreviews p = Some g \<longrightarrow>
        children_of (dropdownMenu t p isVertical resp filtered loading arr) \<noteq> []
        \<and> last (children_of (dropdownMenu t p isVertical resp filtered loading arr))
            = EntityPreviews (t (g loading arr) arr)"
    using last_menuChildren [of p g t isVertical resp filtered loading arr]
    by (simp add: dropdownMenu_def children_of_simps)
  have one: "count_rows EntityPreviewRow (children_of (dropdownMenu t p isVertical resp filtered loading arr))
      = (if hasItems isVertical resp filtered \<and> renderEntityPreviews p \<noteq> None then 1 else 0)"
    by (simp add: dropdownMenu_def children_of_simps count_preview_menuChildren count_rows_Nil
        split: option.splits)
  from layout scan vertical final one show ?thesis by (intro conjI)
qed

theorem aggregation_order_witness:
  "children_of (dropdownMenu (\<lambda>el arr. el) sample_props False (Some sample_response)
      (Some sample_recent) False ())
   = [Item (recentSearchItem \<lparr> query = ''a'' \<rparr>),
      Item (querySuggestionItem \<lparr> result_value = ''b'', verticalKeys = Some [''k1''] \<rparr>),
      Item (verticalLinkItem None \<lparr> result_value = ''b'', verticalKeys = Some [''k1''] \<rparr> ''k1'')]
   \<and> ordered_from AtRecentSearches
        (children_of (dropdownMenu (\<lambda>el arr. el) sample_props False (Some sample_response)
           (Some sample_recent) False ()))
   \<and> children_of (dropdownMenu (\<lambda>el arr. el) sample_props True (Some sample_response)
        (Some sample_recent) False ())
     = [Item (querySuggestionItem \<lparr> result_value = ''b'', verticalKeys = Some [''k1''] \<rparr>)]
   \<and> count_rows RecentSearchRow
        (children_of (dropdownMenu (\<lambda>el arr. el) sample_props True (Some sample_response)
           (Some sample_recent) False ())) = 0
   \<and> hasItems False (Some sample_response) (Some sample_recent)
   \<and> renderEntityPreviews sample_preview_props
      = Some (\<lambda>loading arr. if loading then ''loading'' else ''previews'')
   \<and> children_of (dropdownMenu (\<lambda>el arr. el @ concat arr) sample_preview_props False
        (Some sample_response) (Some sample_recent) False [''+v1'', ''+v2''])
     = [Item (recentSearchItem \<lparr> query = ''a'' \<rparr>),
        Item (querySuggestionItem \<lparr> result_value = ''b'', verticalKeys = Some [''k1''] \<rparr>),
        Item (verticalLinkItem None \<lparr> result_value = ''b'', verticalKeys = Some [''k1''] \<rparr> ''k1''),
        EntityPreviews ''previews+v1+v2'']
   \<and> last (children_of (dropdownMenu (\<lambda>el arr. el @ concat arr) sample_preview_props False
        (Some sample_response) (Some sample_recent) False [''+v1'', ''+v2'']))
     = EntityPreviews ''previews+v1+v2''
   \<and> count_rows EntityPreviewRow
        (children_of (dropdownMenu (\<lambda>el arr. el @ concat arr) sample_preview_props False
           (Some sample_response) (Some sample_recent) False [''+v1'', ''+v2''])) = 1"
  using aggregation_order [of "\<lambda>el arr. el" sample_props False "Some sample_response" "Some sample_recent" False "()"]
    aggregation_order [of "\<lambda>el arr. el" sample_props True "Some sample_response" "Some sample_recent" False "()"]
    aggregation_order [of "\<lambda>el arr. el @ concat arr" sample_preview_props False "Some sample_response"
      "Some sample_recent" False "[''+v1'', ''+v2'']" "\<lambda>loading arr. if loading then ''loading'' else ''previews''"]
  by (simp add: render_defs sample_preview_props_def count_rows_def)

text \<open>
  Claim C3. A suggestion gets vertical-link rows exactly when \<^verbatim>\<open>hideVerticalLinks\<close> is not
  set, the context is not vertical and the suggestion has at least one vertical key; there
  is then one row per key, in order, whose metadata holds the path
  \<^verbatim>\<open>/{verticalKey}?query={value}\<close>; an empty key list gives no row.
\<close>

theorem vertical_links_generated:
  "(children_of (verticalLinkItems p isVertical result) \<noteq> [] \<longleftrightarrow>
      \<not> truthy (hideVerticalLinks p) \<and> \<not> isVertical \<and> (\<exists>ks. verticalKeys result = Some ks \<and> ks \<noteq> []))
   \<and> (\<not> truthy (hideVerticalLinks p) \<and> \<not> isVertical \<longrightarrow>
        map (\<lambda>it. verticalLinkOf (item_metadata it)) (children_of (verticalLinkItems p isVertical result))
        = map (\<lambda>verticalKey. Some (''/'' @ verticalKey @ ''?query='' @ result_value result))
            (children_of (verticalKeys result)))
   \<and> (\<forall>it \<in> set (children_of (verticalLinkItems p isVertical result)).
        \<exists>verticalKey \<in> set (children_of (verticalKeys result)).
          item_metadata it = Some \<lparr> verticalLink = Some (MetaString (''/'' @ verticalKey @ ''?query='' @ result_value result)) \<rparr>)
   \<and> (verticalKeys result = Some [] \<longrightarrow> children_of (verticalLinkItems p isVertical result) = [])"
  by (cases "verticalKeys result")
     (auto simp: verticalLinkItems_def children_of_def verticalLinkOf_def verticalLinkItem_def verticalLinkPath_def)

theorem vertical_links_generated_witness:
  "\<not> truthy (hideVerticalLinks sample_props)
   \<and> children_of (verticalLinkItems sample_props False \<lparr> result_value = ''b'', verticalKeys = Some [''k1'', ''k2''] \<rparr>) \<noteq> []
   \<and> map (\<lambda>it. verticalLinkOf (item_metadata it))
        (children_of (verticalLinkItems sample_props False \<lparr> result_value = ''b'', verticalKeys = Some [''k1'', ''k2''] \<rparr>))
      = [Some ''/k1?query=b'', Some ''/k2?query=b'']
   \<and> verticalKeys \<lparr> result_value = ''c'', verticalKeys = Some [] \<rparr> = Some []
   \<and> children_of (verticalLinkItems sample_props False \<lparr> result_value = ''c'', verticalKeys = Some [] \<rparr>) = []"
  using vertical_links_generated [of sample_props False "\<lparr> result_value = ''b'', verticalKeys = Some [''k1'', ''k2''] \<rparr>"]
    vertical_links_generated [of sample_props False "\<lparr> result_value = ''c'', verticalKeys = Some [] \<rparr>"]
  by (simp add: render_defs)

text \<open>
  Claim C4. In vertical context the component renders no recent-search row and
  \<^verbatim>\<open>hasItems\<close> ignores the recent searches, but the accessible-count summary is computed
  from \<^verbatim>\<open>filteredRecentSearches?.length\<close> without the \<^verbatim>\<open>isVertical\<close> guard of its two
  siblings: with one matching stored search and no autocomplete result, nothing is rendered
  and the summary still announces one recent search.
\<close>

theorem vertical_summary_counts_unrendered_recent_searches:
  "filteredRecentSearches (\<lambda>candidate q. candidate = q) (Some sample_recent) ''a'' = Some sample_recent
   \<and> dropdownMenu (\<lambda>el arr. el) sample_props True None (Some sample_recent) False () = None
   \<and> \<not> hasItems True None (Some sample_recent)
   \<and> screenReaderText pluralize None (Some sample_recent)
     = ''1 recent search found. 0 autocomplete suggestions found.''
   \<and> screenReaderText pluralize None (Some [])
     = ''0 autocomplete suggestions found.''"
  by (simp add: filteredRecentSearches_def render_defs summary_defs)

text \<open>
  Claim C5. Submitting, and selecting a query-suggestion or a recent-search row, makes these
  calls and no others: (on selection) the query is set and an autocomplete request issued;
  the query input is recorded as a recent search when recent searches are not hidden and
  the input is not empty; last, the query is run with near-me handling.
\<close>

theorem query_recorded_then_dispatched:
  "calls (onSubmit p w) =
     calls w
     @ (if \<not> truthy (hideRecentSearches p) \<and> or_empty (state_query_input w) \<noteq> []
        then [SetRecentSearch (or_empty (state_query_input w))] else [])
     @ [ExecuteQueryWithNearMeHandling]
   \<and> calls (onSelect p (Some (item_value (querySuggestionItem r))) (item_metadata (querySuggestionItem r)) w) =
     calls w @ [SetQuery (result_value r), ExecuteAutocomplete]
     @ (if \<not> truthy (hideRecentSearches p) \<and> result_value r \<noteq> [] then [SetRecentSearch (result_value r)] else [])
     @ [ExecuteQueryWithNearMeHandling]
   \<and> calls (onSelect p (Some (item_value (recentSearchItem s))) (item_metadata (recentSearchItem s)) w) =
     calls w @ [SetQuery (query s), ExecuteAutocomplete]
     @ (if \<not> truthy (hideRecentSearches p) \<and> query s \<noteq> [] then [SetRecentSearch (query s)] else [])
     @ [ExecuteQueryWithNearMeHandling]"
proof -
  have q: "item_value (querySuggestionItem r) = result_value r"
    by (simp add: querySuggestionItem_def)
  have s: "item_value (recentSearchItem s) = query s"
    by (simp add: recentSearchItem_def)
  show ?thesis
    unfolding onSubmit_def
    by (simp add: calls_executeQuery calls_onSelect_plain verticalLinkOf_querySuggestionItem
        verticalLinkOf_recentSearchItem q s or_empty_def)
qed

text \<open>
  Claim C6. Selecting a row whose metadata carries a vertical-link path pushes that path on
  the browser history and neither records a recent search nor runs the query; selecting a
  row without one pushes nothing. The rows \<^verbatim>\<open>renderQuerySuggestions\<close> gives a link path are
  its vertical-link rows; suggestion rows and recent-search rows carry none.
\<close>

theorem vertical_link_navigates:
  "(verticalLinkOf md = Some l \<longrightarrow>
        HistoryPush l Autocomplete \<in> set (new_calls w (onSelect p v md w))
        \<and> (\<forall>q. SetRecentSearch q \<notin> set (new_calls w (onSelect p v md w)))
        \<and> ExecuteQueryWithNearMeHandling \<notin> set (new_calls w (onSelect p v md w)))
   \<and> (verticalLinkOf md = None \<longrightarrow>
        (\<forall>path src. HistoryPush path src \<notin> set (new_calls w (onSelect p v md w))))
   \<and> verticalLinkOf (item_metadata (verticalLinkItem lbl r k)) = Some (''/'' @ k @ ''?query='' @ result_value r)
   \<and> verticalLinkOf (item_metadata (querySuggestionItem r)) = None
   \<and> verticalLinkOf (item_metadata (recentSearchItem s)) = None"
proof -
  have link: "verticalLinkOf md = Some l \<Longrightarrow>
      new_calls w (onSelect p v md w) = [SetQuery (or_empty v), HistoryPush l Autocomplete]"
    by (simp add: new_calls_def calls_onSelect_link)
  have plain: "verticalLinkOf md = None \<Longrightarrow>
      new_calls w (onSelect p v md w) =
        [SetQuery (or_empty v), ExecuteAutocomplete]
        @ (if \<not> truthy (hideRecentSearches p) \<and> or_empty v \<noteq> [] then [SetRecentSearch (or_empty v)] else [])
        @ [ExecuteQueryWithNearMeHandling]"
    by (simp add: new_calls_def calls_onSelect_plain)
  have a: "verticalLinkOf md = Some l \<longrightarrow>
        HistoryPush l Autocomplete \<in> set (new_calls w (onSelect p v md w))
        \<and> (\<forall>q. SetRecentSearch q \<notin> set (new_calls w (onSelect p v md w)))
        \<and> ExecuteQueryWithNearMeHandling \<notin> set (new_calls w (onSelect p v md w))"
    by (simp add: link)
  have b: "verticalLinkOf md = None \<longrightarrow>
        (\<forall>path src. HistoryPush path src \<notin> set (new_calls w (onSelect p v md w)))"
    by (simp add: plain)
  show ?thesis
    using a b
    by (simp add: verticalLinkOf_verticalLinkItem verticalLinkPath_def
        verticalLinkOf_querySuggestionItem verticalLinkOf_recentSearchItem)
qed

theorem vertical_link_navigates_witness:
  "verticalLinkOf (Some \<lparr> verticalLink = Some (MetaString ''/k1?query=b'') \<rparr>) = Some ''/k1?query=b''
   \<and> new_calls sample_world
        (onSelect sample_props (Some ''b'') (Some \<lparr> verticalLink = Some (MetaString ''/k1?query=b'') \<rparr>) sample_world)
      = [SetQuery ''b'', HistoryPush ''/k1?query=b'' Autocomplete]
   \<and> verticalLinkOf None = None
   \<and> new_calls sample_world (onSelect sample_props (Some ''b'') None sample_world)
      = [SetQuery ''b'', ExecuteAutocomplete, SetRecentSearch ''b'', ExecuteQueryWithNearMeHandling]"
  using vertical_link_navigates [of "Some \<lparr> verticalLink = Some (MetaString ''/k1?query=b'') \<rparr>" "''/k1?query=b''"
      sample_world sample_props "Some ''b''"]
    vertical_link_navigates [of None "''x''" sample_world sample_props "Some ''b''"]
  by (simp add: new_calls_def onSelect_def verticalLinkOf_def setQuery_def record_call_def or_empty_def
      executeQuery_def assignAutocompletePromise_def executeAutocomplete_def truthy_def Let_def
      sample_world_def sample_props_def)

text \<open>
  Claim C7 as stated fails where no recent search is listed: the summary then holds the
  autocomplete phrase alone, not two phrases (\<^verbatim>\<open>recentSearchesOptions > 0 ? ... : ''\<close>).
\<close>

theorem summary_one_phrase_counterexample:
  "screenReaderText pluralize (Some sample_response) (Some [])
   \<noteq> two_phrase_summary pluralize
       (count_rows RecentSearchRow (children_of (dropdownMenu (\<lambda>el arr. el) sample_props False
          (Some sample_response) (Some []) False ())))
       (count_rows QuerySuggestionRow (children_of (dropdownMenu (\<lambda>el arr. el) sample_props False
          (Some sample_response) (Some []) False ())))"
  by (simp add: render_defs kind_defs summary_defs)

text \<open>
  Claim C7, amended. Outside vertical context the summary is the autocomplete phrase,
  preceded by the recent-search phrase and a space only when there is a recent-search row;
  the counts the phrases report are the number of recent-search rows and the number of
  query-suggestion rows of the rendered list (vertical-link rows are not counted).
\<close>

theorem summary_counts_rows:
  "\<not> isVertical \<Longrightarrow>
   screenReaderText pt resp filtered =
     (let rows = children_of (dropdownMenu t p isVertical resp filtered loading arr);
          recentRows = count_rows RecentSearchRow rows;
          suggestionRows = count_rows QuerySuggestionRow rows
      in trim ((if recentRows = 0 then []
                else pt (show_nat recentRows @ '' recent search found.'')
                       (show_nat recentRows @ '' recent searches found.'') recentRows)
               @ '' ''
               @ pt (show_nat suggestionRows @ '' autocomplete suggestion found.'')
                   (show_nat suggestionRows @ '' autocomplete suggestions found.'') suggestionRows))"
proof -
  assume nv: "\<not> isVertical"
  have eq: "screenReaderText pt resp filtered =
      getScreenReaderText pt (Some (case resp of None \<Rightarrow> 0 | Some r \<Rightarrow> length (results r)))
        (Some (case filtered of None \<Rightarrow> 0 | Some xs \<Rightarrow> length xs))"
    by (simp add: screenReaderText_def getScreenReaderText_def split: option.splits)
  show ?thesis
    unfolding eq Let_def
    using rendered_counts [OF nv, of t p resp filtered loading arr]
    by (simp add: getScreenReaderText_def Let_def)
qed

theorem summary_counts_rows_witness:
  "\<not> False
   \<and> screenReaderText pluralize (Some sample_response) (Some sample_recent)
     = ''1 recent search found. 1 autocomplete suggestion found.''
   \<and> count_rows RecentSearchRow (children_of (dropdownMenu (\<lambda>el arr. el) sample_props False
        (Some sample_response) (Some sample_recent) False ())) = 1
   \<and> count_rows QuerySuggestionRow (children_of (dropdownMenu (\<lambda>el arr. el) sample_props False
        (Some sample_response) (Some sample_recent) False ())) = 1
   \<and> count_rows VerticalLinkRow (children_of (dropdownMenu (\<lambda>el arr. el) sample_props False
        (Some sample_response) (Some sample_recent) False ())) = 1"
  using summary_counts_rows [of False pluralize "Some sample_response" "Some sample_recent"
      "\<lambda>el arr. el" sample_props False "()"]
  by (simp add: render_defs kind_defs summary_defs)

text \<open>
  Claim C8. After a render in which \<^verbatim>\<open>hideRecentSearches\<close> has turned true (and after the
  first render when it is true from the start), the component calls
  \<^verbatim>\<open>clearRecentSearches\<close>, whatever calls were made before and without any handler
  running; no handler (submit, focus, change, select, toggle) makes that call.
\<close>

theorem hiding_recent_searches_clears:
  "(\<not> truthy h \<longrightarrow>
      afterRender (Some (c, h)) c' (p\<lparr> hideRecentSearches := Some True \<rparr>) w
      = w\<lparr> calls := calls w @ [ClearRecentSearches] \<rparr>)
   \<and> afterRender None c' (p\<lparr> hideRecentSearches := Some True \<rparr>) w
      = w\<lparr> calls := calls w @ [ClearRecentSearches] \<rparr>
   \<and> ClearRecentSearches \<notin> set (new_calls w (onSubmit p w))
   \<and> ClearRecentSearches \<notin> set (new_calls w (onFocus m p loading arr v w))
   \<and> ClearRecentSearches \<notin> set (new_calls w (onChange m p loading arr v w))
   \<and> ClearRecentSearches \<notin> set (new_calls w (onSelect p v md w))
   \<and> ClearRecentSearches \<notin> set (new_calls w (onToggle m p loading arr isActive v w))"
proof -
  have turned: "\<not> truthy h \<longrightarrow>
      afterRender (Some (c, h)) c' (p\<lparr> hideRecentSearches := Some True \<rparr>) w
      = w\<lparr> calls := calls w @ [ClearRecentSearches] \<rparr>"
    by (auto simp: afterRender_def effect_due_def recentSearchesEffect_def truthy_def record_call_def)
  have mounted: "afterRender None c' (p\<lparr> hideRecentSearches := Some True \<rparr>) w
      = w\<lparr> calls := calls w @ [ClearRecentSearches] \<rparr>"
    by (simp add: afterRender_def effect_due_def recentSearchesEffect_def truthy_def record_call_def)
  from turned mounted handlers_never_clear [of w p m loading arr v md isActive]
  show ?thesis by (intro conjI) simp_all
qed

theorem hiding_recent_searches_clears_witness:
  "\<not> truthy (Some False)
   \<and> afterRender (Some (0, Some False)) 0 (sample_props\<lparr> hideRecentSearches := Some True \<rparr>) sample_world
     = sample_world\<lparr> calls := [SetRecentSearch ''a'', ClearRecentSearches] \<rparr>"
  using hiding_recent_searches_clears [of "Some False" 0 0 sample_props sample_world]
  by (simp add: truthy_def sample_world_def)



text \<open>
  Claim C10. Selecting a vertical-link row changes the state in exactly two ways: the query
  input becomes the row's value, and the calls made are \<^verbatim>\<open>setQuery\<close> with that value
  followed by the push of the row's path; no autocomplete request is issued (the promise
  reference is untouched) and no query is executed.
\<close>

theorem vertical_link_only_sets_query:
  "onSelect p (Some (item_value (verticalLinkItem lbl r k))) (item_metadata (verticalLinkItem lbl r k)) w
   = w\<lparr> state_query_input := Some (result_value r),
        calls := calls w @ [SetQuery (result_value r),
                  HistoryPush (''/'' @ k @ ''?query='' @ result_value r) Autocomplete] \<rparr>"
  by (simp add: onSelect_def Let_def verticalLinkOf_verticalLinkItem item_value_verticalLinkItem
      verticalLinkPath_def setQuery_def record_call_def or_empty_def)

end
